theory Spec2Isabelle
  imports Main
begin

section \<open>The SQLite store of \<^verbatim>\<open>backend/index.js\<close>\<close>

text \<open>
  The three tables of \<^verbatim>\<open>index.js\<close>, lines 34-62. A row is a record whose fields are
  the columns; the primary key \<^verbatim>\<open>id\<close> is called \<open>uid\<close>, \<open>tid\<close>, \<open>aid\<close>, since \<open>id\<close>
  is the identity function of HOL. Row ids are unbounded integers: the 64-bit limit of
  SQLite's rowid is never reached by the claims.

  \<^verbatim>\<open>user_id\<close> and \<^verbatim>\<open>topic_id\<close> are declared INTEGER and are filled from the URL path.
  SQLite applies the column's INTEGER affinity to the bound text, both when the row is
  written and when the column is compared with a bound parameter: text that spells an
  integer becomes that integer, any other text stays text. \<open>sqlval\<close> is the value after
  this conversion.
\<close>

datatype sqlval = SqlInt int | SqlText string

record user =
  uid :: int
  username :: string
  email :: string
  password :: string

text \<open>
  \<^verbatim>\<open>module_name\<close> is a reserved word of Isabelle, so the columns \<^verbatim>\<open>module_name\<close> and
  \<^verbatim>\<open>topic_name\<close> are the fields \<open>moduleName\<close> and \<open>topicName\<close>.
\<close>

record topic =
  tid :: int
  moduleName :: string
  topicName :: string

record assignment =
  aid :: int
  user_id :: sqlval
  topic_id :: sqlval
  file_path :: string
  marks :: int
  completed :: int

text \<open>
  An error reported by the sqlite3 driver: the \<^verbatim>\<open>err\<close> of a callback, with its
  \<^verbatim>\<open>err.message\<close>.
\<close>

record sqlite_error =
  code :: string
  message :: string

definition no_such_table :: "string \<Rightarrow> sqlite_error" where
  "no_such_table name =
     \<lparr>code = ''SQLITE_ERROR'', message = ''SQLITE_ERROR: no such table: '' @ name\<rparr>"

definition unique_failed :: "string \<Rightarrow> sqlite_error" where
  "unique_failed col =
     \<lparr>code = ''SQLITE_CONSTRAINT'',
      message = ''SQLITE_CONSTRAINT: UNIQUE constraint failed: '' @ col\<rparr>"

text \<open>
  The database file \<^verbatim>\<open>./juslearn.db\<close>. It outlives the process, so a table is either
  absent (\<open>None\<close>) or holds its rows in rowid order. \<open>seq_users\<close> and
  \<open>seq_assignments\<close> are the rows of \<^verbatim>\<open>sqlite_sequence\<close> that AUTOINCREMENT keeps for
  the two tables declared with it (0 when there is no row).
\<close>

record db =
  users :: "user list option"
  topics :: "topic list option"
  assignments :: "assignment list option"
  seq_users :: int
  seq_assignments :: int

text \<open>
  AUTOINCREMENT: the new rowid is one more than the largest rowid the table ever held,
  which is the larger of the \<^verbatim>\<open>sqlite_sequence\<close> entry and the ids present.
\<close>

definition next_rowid :: "int \<Rightarrow> int list \<Rightarrow> int" where
  "next_rowid seq ids = fold max ids seq + 1"

subsection \<open>Initialization and seeding (lines 27-96)\<close>

datatype table = Users | Topics | Assignments

datatype stmt =
    DropTableIfExists table
  | CreateTableIfNotExists table
  | DeleteFromTopics
  | InsertIntoTopics topic

text \<open>
  One statement of the initialization block on the database file. Foreign keys are
  declared but SQLite does not enforce them unless \<^verbatim>\<open>PRAGMA foreign_keys\<close> is set, which
  the program never does, so dropping a table touches no other table. Dropping a table
  also removes its \<^verbatim>\<open>sqlite_sequence\<close> row. \<^verbatim>\<open>topics.id\<close> is an INTEGER PRIMARY
  KEY: a second row with the same id is refused, and rows are kept in id order.
\<close>

fun exec :: "stmt \<Rightarrow> db \<Rightarrow> sqlite_error + db" where
  "exec (DropTableIfExists Assignments) d = Inr (d\<lparr>assignments := None, seq_assignments := 0\<rparr>)"
| "exec (DropTableIfExists Topics) d = Inr (d\<lparr>topics := None\<rparr>)"
| "exec (DropTableIfExists Users) d = Inr (d\<lparr>users := None, seq_users := 0\<rparr>)"
| "exec (CreateTableIfNotExists Users) d =
     Inr (case users d of None \<Rightarrow> d\<lparr>users := Some []\<rparr> | Some _ \<Rightarrow> d)"
| "exec (CreateTableIfNotExists Topics) d =
     Inr (case topics d of None \<Rightarrow> d\<lparr>topics := Some []\<rparr> | Some _ \<Rightarrow> d)"
| "exec (CreateTableIfNotExists Assignments) d =
     Inr (case assignments d of None \<Rightarrow> d\<lparr>assignments := Some []\<rparr> | Some _ \<Rightarrow> d)"
| "exec DeleteFromTopics d =
     (case topics d of
        None \<Rightarrow> Inl (no_such_table ''topics'')
      | Some _ \<Rightarrow> Inr (d\<lparr>topics := Some []\<rparr>))"
| "exec (InsertIntoTopics t) d =
     (case topics d of
        None \<Rightarrow> Inl (no_such_table ''topics'')
      | Some ts \<Rightarrow>
          if tid t \<in> set (map tid ts) then Inl (unique_failed ''topics.id'')
          else Inr (d\<lparr>topics := Some (insort_key tid t ts)\<rparr>))"

definition topicsToInsert :: "topic list" where
  "topicsToInsert =
     [\<lparr>tid = 1, moduleName = ''Operating Systems'', topicName = ''Process Scheduling''\<rparr>,
      \<lparr>tid = 2, moduleName = ''Operating Systems'', topicName = ''Inter-process Communication''\<rparr>,
      \<lparr>tid = 3, moduleName = ''Operating Systems'', topicName = ''Paging & Segmentation''\<rparr>,
      \<lparr>tid = 4, moduleName = ''Operating Systems'', topicName = ''Virtual Memory''\<rparr>,
      \<lparr>tid = 5, moduleName = ''Operating Systems'', topicName = ''File Allocation''\<rparr>,
      \<lparr>tid = 6, moduleName = ''Operating Systems'', topicName = ''Directory Structures''\<rparr>,
      \<lparr>tid = 7, moduleName = ''DBMS'', topicName = ''ER Diagrams''\<rparr>,
      \<lparr>tid = 8, moduleName = ''DBMS'', topicName = ''Normalization''\<rparr>,
      \<lparr>tid = 9, moduleName = ''DBMS'', topicName = ''Select Queries''\<rparr>,
      \<lparr>tid = 10, moduleName = ''DBMS'', topicName = ''Joins & Subqueries''\<rparr>,
      \<lparr>tid = 11, moduleName = ''Computer Networks'', topicName = ''OSI Model''\<rparr>,
      \<lparr>tid = 12, moduleName = ''Computer Networks'', topicName = ''TCP/IP Model''\<rparr>,
      \<lparr>tid = 13, moduleName = ''Computer Networks'', topicName = ''IP Addressing''\<rparr>,
      \<lparr>tid = 14, moduleName = ''Computer Networks'', topicName = ''Routing''\<rparr>]"

text \<open>
  The statements of the \<^verbatim>\<open>db.serialize\<close> block in the order the driver runs them: the
  three drops, the three creates, \<^verbatim>\<open>DELETE FROM topics\<close>, and, from its callback, one
  insert per element of \<open>topicsToInsert\<close>. None of the calls passes an error callback;
  a statement that failed would raise an unhandled \<^verbatim>\<open>error\<close> event, so the run stops at
  the first error.
\<close>

definition init_script :: "stmt list" where
  "init_script =
     [DropTableIfExists Assignments,
      DropTableIfExists Topics,
      DropTableIfExists Users,
      CreateTableIfNotExists Users,
      CreateTableIfNotExists Topics,
      CreateTableIfNotExists Assignments,
      DeleteFromTopics]
     @ map InsertIntoTopics topicsToInsert"

fun exec_all :: "stmt list \<Rightarrow> db \<Rightarrow> sqlite_error + db" where
  "exec_all [] d = Inr d"
| "exec_all (s # ss) d = (case exec s d of Inl e \<Rightarrow> Inl e | Inr d' \<Rightarrow> exec_all ss d')"

definition startup :: "db \<Rightarrow> sqlite_error + db" where
  "startup d = exec_all init_script d"

text \<open>The database every start ends in: three tables, only the catalog filled.\<close>

definition seeded :: db where
  "seeded = \<lparr>users = Some [], topics = Some topicsToInsert, assignments = Some [],
             seq_users = 0, seq_assignments = 0\<rparr>"


section \<open>The environment of a request\<close>

text \<open>
  What a request meets and the handler does not control: whether the sqlite3 driver
  reports a failure of its own for the statement (\<open>fault\<close>: disk full, database locked,
  ...), the clock read by \<^verbatim>\<open>Date.now()\<close>, whether \<^verbatim>\<open>fs.unlink\<close> manages to remove the
  file, and the salt bcrypt draws.
\<close>

record env =
  fault :: "sqlite_error option"
  now :: nat
  unlink_ok :: bool
  salt :: string

text \<open>
  The bcrypt package is not part of the repository; it is a parameter of the handlers.
  A call returns a promise, which resolves to a value or rejects. \<open>hash b data rounds s\<close>
  is \<^verbatim>\<open>bcrypt.hash(data, rounds)\<close> when the salt drawn is \<open>s\<close>;
  \<open>compare b data h\<close> is \<^verbatim>\<open>bcrypt.compare(data, h)\<close>, where \<open>data\<close> is \<open>None\<close> when
  the caller passes \<^verbatim>\<open>undefined\<close>.
\<close>

datatype 'a promise = Resolved 'a | Rejected

record bcrypt =
  hash :: "string \<Rightarrow> nat \<Rightarrow> string \<Rightarrow> string promise"
  compare :: "string option \<Rightarrow> string \<Rightarrow> bool promise"

section \<open>Statements run by the route handlers\<close>

text \<open>
  \<^verbatim>\<open>INSERT INTO users(username, email, password) VALUES(?,?,?)\<close>. \<^verbatim>\<open>email\<close> is UNIQUE;
  the result carries \<^verbatim>\<open>this.lastID\<close>.
\<close>

definition insert_user :: "env \<Rightarrow> string \<Rightarrow> string \<Rightarrow> string \<Rightarrow> db \<Rightarrow> sqlite_error + db \<times> int" where
  "insert_user e un em pw d =
     (case fault e of
        Some err \<Rightarrow> Inl err
      | None \<Rightarrow>
          (case users d of
             None \<Rightarrow> Inl (no_such_table ''users'')
           | Some us \<Rightarrow>
               if em \<in> set (map email us) then Inl (unique_failed ''users.email'')
               else
                 let i = next_rowid (seq_users d) (map uid us)
                 in Inr (d\<lparr>users := Some (us @ [\<lparr>uid = i, username = un, email = em, password = pw\<rparr>]),
                           seq_users := i\<rparr>, i)))"

text \<open>
  \<^verbatim>\<open>SELECT * FROM users WHERE email = ?\<close> through \<^verbatim>\<open>db.get\<close>: the first matching row, or
  none. An \<^verbatim>\<open>undefined\<close> parameter is left unbound, that is NULL, and \<^verbatim>\<open>email = NULL\<close>
  holds for no row.
\<close>

definition select_user_by_email :: "env \<Rightarrow> string option \<Rightarrow> db \<Rightarrow> sqlite_error + user option" where
  "select_user_by_email e em d =
     (case fault e of
        Some err \<Rightarrow> Inl err
      | None \<Rightarrow>
          (case users d of
             None \<Rightarrow> Inl (no_such_table ''users'')
           | Some us \<Rightarrow>
               Inr (case em of None \<Rightarrow> None | Some x \<Rightarrow> find (\<lambda>u. email u = x) us)))"

text \<open>\<^verbatim>\<open>SELECT * FROM topics\<close> through \<^verbatim>\<open>db.all\<close>.\<close>

definition select_topics :: "env \<Rightarrow> db \<Rightarrow> sqlite_error + topic list" where
  "select_topics e d =
     (case fault e of
        Some err \<Rightarrow> Inl err
      | None \<Rightarrow> (case topics d of None \<Rightarrow> Inl (no_such_table ''topics'') | Some ts \<Rightarrow> Inr ts))"

text \<open>
  \<^verbatim>\<open>REPLACE INTO assignments(user_id, topic_id, file_path, completed) VALUES(?,?,?,1)\<close>.
  REPLACE is INSERT OR REPLACE: before inserting, SQLite deletes the rows that the new
  row conflicts with on a UNIQUE or PRIMARY KEY constraint. The only such constraint of
  \<^verbatim>\<open>assignments\<close> is the primary key \<^verbatim>\<open>id\<close>; the statement gives no id, so the new
  row gets the next AUTOINCREMENT rowid. \<^verbatim>\<open>marks\<close> is not listed and takes its default 0.
\<close>

definition replace_into_assignments ::
    "env \<Rightarrow> sqlval \<Rightarrow> sqlval \<Rightarrow> string \<Rightarrow> db \<Rightarrow> sqlite_error + db \<times> int" where
  "replace_into_assignments e userId topicId filePath d =
     (case fault e of
        Some err \<Rightarrow> Inl err
      | None \<Rightarrow>
          (case assignments d of
             None \<Rightarrow> Inl (no_such_table ''assignments'')
           | Some as \<Rightarrow>
               let i = next_rowid (seq_assignments d) (map aid as);
                   kept = filter (\<lambda>a. aid a \<noteq> i) as
               in Inr (d\<lparr>assignments :=
                            Some (kept @ [\<lparr>aid = i, user_id = userId, topic_id = topicId,
                                           file_path = filePath, marks = 0, completed = 1\<rparr>]),
                          seq_assignments := i\<rparr>, i)))"

text \<open>
  The progress query (lines 196-200): \<^verbatim>\<open>topics t LEFT JOIN assignments a ON t.id =
  a.topic_id AND a.user_id = ?\<close>. For each topic, one row per assignment that satisfies
  the ON condition and, when there is none, one row whose \<^verbatim>\<open>a\<close> columns are NULL.
  \<^verbatim>\<open>IFNULL(x, 0)\<close> is \<open>ifnull x 0\<close>.
\<close>

record progress_row =
  row_topicId :: int
  row_module_name :: string
  row_topic_name :: string
  row_completed :: int
  row_marks :: int

definition ifnull :: "'a option \<Rightarrow> 'a \<Rightarrow> 'a" where
  "ifnull x y = (case x of None \<Rightarrow> y | Some v \<Rightarrow> v)"

definition on_cond :: "sqlval \<Rightarrow> topic \<Rightarrow> assignment \<Rightarrow> bool" where
  "on_cond userId t a \<longleftrightarrow> SqlInt (tid t) = topic_id a \<and> user_id a = userId"

definition select_row :: "topic \<Rightarrow> assignment option \<Rightarrow> progress_row" where
  "select_row t a =
     \<lparr>row_topicId = tid t, row_module_name = moduleName t, row_topic_name = topicName t,
      row_completed = ifnull (map_option completed a) 0,
      row_marks = ifnull (map_option marks a) 0\<rparr>"

definition left_join :: "sqlval \<Rightarrow> topic list \<Rightarrow> assignment list \<Rightarrow> progress_row list" where
  "left_join userId ts as =
     concat (map (\<lambda>t. case filter (on_cond userId t) as of
                         [] \<Rightarrow> [select_row t None]
                       | m # ms \<Rightarrow> map (\<lambda>a. select_row t (Some a)) (m # ms)) ts)"

definition select_progress :: "env \<Rightarrow> sqlval \<Rightarrow> db \<Rightarrow> sqlite_error + progress_row list" where
  "select_progress e userId d =
     (case fault e of
        Some err \<Rightarrow> Inl err
      | None \<Rightarrow>
          (case topics d of
             None \<Rightarrow> Inl (no_such_table ''topics'')
           | Some ts \<Rightarrow>
               (case assignments d of
                  None \<Rightarrow> Inl (no_such_table ''assignments'')
                | Some as \<Rightarrow> Inr (left_join userId ts as))))"

section \<open>The route handlers\<close>

text \<open>
  A response is the status (200 when the handler calls \<^verbatim>\<open>res.json\<close> alone) and the JSON
  body, one constructor per shape the handlers send.
\<close>

datatype json =
    Message string
  | Registered string int
  | LoggedIn string int string
  | Uploaded string int
  | TopicRows "topic list"
  | ProgressRows "progress_row list"

type_synonym response = "nat \<times> json"

text \<open>
  A field of the JSON body is absent (\<open>None\<close>: \<^verbatim>\<open>undefined\<close> or \<^verbatim>\<open>null\<close>, which every
  handler treats alike) or a string; bodies that carry numbers, booleans or objects in
  these fields are outside the model. \<^verbatim>\<open>!x\<close> holds for an absent field and for the
  empty string.
\<close>

definition falsy :: "string option \<Rightarrow> bool" where
  "falsy x \<longleftrightarrow> (case x of None \<Rightarrow> True | Some s \<Rightarrow> s = [])"

text \<open>
  \<^verbatim>\<open>POST /api/signup\<close>, lines 116-138. Past the presence check the three fields are
  strings, which \<open>the\<close> reads. A rejection of \<^verbatim>\<open>bcrypt.hash\<close> is caught by the
  \<^verbatim>\<open>try\<close>; the callback of the insert has a single error branch.
\<close>

definition signup ::
    "bcrypt \<Rightarrow> env \<Rightarrow> string option \<Rightarrow> string option \<Rightarrow> string option \<Rightarrow> db \<Rightarrow> db \<times> response" where
  "signup b e un em pw d =
     (if falsy un \<or> falsy em \<or> falsy pw then (d, (400, Message ''Missing required fields''))
      else
        (case hash b (the pw) 10 (salt e) of
           Rejected \<Rightarrow> (d, (500, Message ''Internal server error during hashing.''))
         | Resolved hashedPassword \<Rightarrow>
             (case insert_user e (the un) (the em) hashedPassword d of
                Inl err \<Rightarrow> (d, (409, Message ''Email or username already in use.''))
              | Inr (d', lastID) \<Rightarrow>
                  (d', (200, Registered ''User registered successfully'' lastID)))))"

text \<open>
  \<^verbatim>\<open>POST /api/login\<close>, lines 141-154. The callback of \<^verbatim>\<open>db.get\<close> is an async function
  and awaits \<^verbatim>\<open>bcrypt.compare\<close> outside any \<^verbatim>\<open>try\<close>: when that promise rejects, the
  callback's own promise rejects with no handler, nothing is sent (\<open>None\<close>) and the
  process exits on the unhandled rejection.
\<close>

definition invalidMessage :: json where
  "invalidMessage = Message ''Invalid credentials''"

definition login :: "bcrypt \<Rightarrow> env \<Rightarrow> string option \<Rightarrow> string option \<Rightarrow> db \<Rightarrow> response option" where
  "login b e em pw d =
     (case select_user_by_email e em d of
        Inl err \<Rightarrow> Some (500, Message (message err))
      | Inr None \<Rightarrow> Some (401, invalidMessage)
      | Inr (Some u) \<Rightarrow>
          (case compare b pw (password u) of
             Rejected \<Rightarrow> None
           | Resolved match \<Rightarrow>
               if \<not> match then Some (401, invalidMessage)
               else Some (200, LoggedIn ''Login successful'' (uid u) (username u))))"

text \<open>\<^verbatim>\<open>GET /api/modules\<close>, lines 161-166.\<close>

definition modules :: "env \<Rightarrow> db \<Rightarrow> response" where
  "modules e d =
     (case select_topics e d of
        Inl err \<Rightarrow> (500, Message (message err))
      | Inr rows \<Rightarrow> (200, TopicRows rows))"

text \<open>\<^verbatim>\<open>GET /api/progress/:userId\<close>, lines 192-208.\<close>

definition progress :: "env \<Rightarrow> sqlval \<Rightarrow> db \<Rightarrow> response" where
  "progress e userId d =
     (case select_progress e userId d of
        Inl err \<Rightarrow> (500, Message (message err))
      | Inr rows \<Rightarrow> (200, ProgressRows rows))"

text \<open>
  The server: the database and the files of \<^verbatim>\<open>./uploads\<close> (their paths).
\<close>

record server =
  store :: db
  uploads :: "string set"

text \<open>The decimal digits of a number, as \<^verbatim>\<open>Date.now() + '-'\<close> prints them.\<close>

fun decimal :: "nat \<Rightarrow> string" where
  "decimal n =
     (if n < 10 then [''0123456789'' ! n]
      else decimal (n div 10) @ [''0123456789'' ! (n mod 10)])"

text \<open>
  The multer disk storage of lines 99-109: the directory \<^verbatim>\<open>./uploads\<close> (created when
  missing) and the file name \<^verbatim>\<open>Date.now() + '-' + file.originalname\<close>.
  \<open>stored_path\<close> is \<^verbatim>\<open>req.file.path\<close>, the two joined.
\<close>

definition destination :: string where
  "destination = ''uploads''"

definition filename :: "env \<Rightarrow> string \<Rightarrow> string" where
  "filename e originalname = decimal (now e) @ ''-'' @ originalname"

definition stored_path :: "env \<Rightarrow> string \<Rightarrow> string" where
  "stored_path e originalname = destination @ ''/'' @ filename e originalname"

text \<open>
  \<^verbatim>\<open>POST /api/upload/:userId/:topicId\<close>, lines 169-189, behind
  \<^verbatim>\<open>upload.single('assignment')\<close>. \<open>file\<close> is the original name of the file in the
  field \<^verbatim>\<open>assignment\<close>, \<open>None\<close> when the request carries none. When there is a file,
  multer has written it before the handler runs. On a failure of the store the handler
  calls \<^verbatim>\<open>fs.unlink\<close> with an empty callback: the file goes away if the unlink works,
  and nothing else depends on it.
\<close>

definition upload :: "env \<Rightarrow> sqlval \<Rightarrow> sqlval \<Rightarrow> string option \<Rightarrow> server \<Rightarrow> server \<times> response" where
  "upload e userId topicId file s =
     (case file of
        None \<Rightarrow> (s, (400, Message ''No file uploaded.''))
      | Some originalname \<Rightarrow>
          let filePath = stored_path e originalname;
              s1 = s\<lparr>uploads := insert filePath (uploads s)\<rparr>
          in (case replace_into_assignments e userId topicId filePath (store s1) of
                Inl err \<Rightarrow>
                  (s1\<lparr>uploads := (if unlink_ok e then uploads s1 - {filePath} else uploads s1)\<rparr>,
                   (500, Message (message err)))
              | Inr (d', lastID) \<Rightarrow>
                  (s1\<lparr>store := d'\<rparr>, (200, Uploaded ''Assignment uploaded successfully'' lastID))))"

section \<open>Sequences of requests\<close>

datatype request =
    Signup "string option" "string option" "string option"
  | Login "string option" "string option"
  | Modules
  | Upload sqlval sqlval "string option"
  | Progress sqlval

text \<open>
  One request on the server. The answer is \<open>None\<close> when the handler sends nothing, which
  only the login does, on a rejected comparison; the process does not survive it.
\<close>

fun handle :: "bcrypt \<Rightarrow> env \<Rightarrow> request \<Rightarrow> server \<Rightarrow> server \<times> response option" where
  "handle b e (Signup un em pw) s =
     (case signup b e un em pw (store s) of (d', r) \<Rightarrow> (s\<lparr>store := d'\<rparr>, Some r))"
| "handle b e (Login em pw) s = (s, login b e em pw (store s))"
| "handle b e Modules s = (s, Some (modules e (store s)))"
| "handle b e (Upload userId topicId file) s =
     (case upload e userId topicId file s of (s', r) \<Rightarrow> (s', Some r))"
| "handle b e (Progress userId) s = (s, Some (progress e userId (store s)))"

text \<open>
  The requests one process serves, in order. A handler that sends nothing has left a
  rejected promise without handler, on which the Node process exits: the requests after
  it are not served, and the database file and the uploads stay as they were then.
\<close>

fun run :: "bcrypt \<Rightarrow> (env \<times> request) list \<Rightarrow> server \<Rightarrow> server" where
  "run b [] s = s"
| "run b ((e, r) # rs) s =
     (case handle b e r s of
        (s', None) \<Rightarrow> s'
      | (s', Some _) \<Rightarrow> run b rs s')"

text \<open>The server right after a start: the seeded database, whatever files were there.\<close>

definition started :: "string set \<Rightarrow> server" where
  "started files = \<lparr>store = seeded, uploads = files\<rparr>"

text \<open>
  What the schema and the handlers keep true of the database once it is seeded: the
  three tables exist, no two users share an email (the UNIQUE constraint), no user has
  the empty email, and every assignment has marks 0.
\<close>

definition well_formed :: "db \<Rightarrow> bool" where
  "well_formed d =
     (case (users d, topics d, assignments d) of
        (Some us, Some ts, Some as) \<Rightarrow>
          distinct (map email us) \<and> [] \<notin> set (map email us) \<and> list_all (\<lambda>a. marks a = 0) as
      | _ \<Rightarrow> False)"

section \<open>Concrete environments for the worked examples\<close>

text \<open>
  A request served at clock reading \<open>n\<close> with no failure of the driver, and the same
  request when the driver reports a full disk.
\<close>

definition served_at :: "nat \<Rightarrow> env" where
  "served_at n = \<lparr>fault = None, now = n, unlink_ok = True, salt = ''salt''\<rparr>"

definition disk_full :: sqlite_error where
  "disk_full = \<lparr>code = ''SQLITE_FULL'', message = ''SQLITE_FULL: database or disk is full''\<rparr>"

definition failing_at :: "nat \<Rightarrow> bool \<Rightarrow> env" where
  "failing_at n unlinks = \<lparr>fault = Some disk_full, now = n, unlink_ok = unlinks, salt = ''salt''\<rparr>"

text \<open>
  A stand-in for bcrypt with the interface of the package: hashing a string resolves to
  the salt, a separator and the data; comparing rejects when the data is
  \<^verbatim>\<open>undefined\<close> (the package answers \<^verbatim>\<open>data and hash arguments required\<close>) and
  otherwise resolves to whether the hash ends in the data.
\<close>

definition sample_bcrypt :: bcrypt where
  "sample_bcrypt =
     \<lparr>hash = (\<lambda>data rounds s. Resolved (s @ ''$'' @ data)),
      compare = (\<lambda>data h. case data of
                   None \<Rightarrow> Rejected
                 | Some p \<Rightarrow> Resolved (dropWhile (\<lambda>c. c \<noteq> CHR ''$'') h = ''$'' @ p))\<rparr>"

text \<open>The database after a start and the signup of alice.\<close>

definition alice_registered :: db where
  "alice_registered =
     fst (signup sample_bcrypt (served_at 1700000000000)
            (Some ''alice'') (Some ''a@x.com'') (Some ''pw123'') seeded)"

text \<open>
  Alice signs up, a login with her email and no password field follows, then bob signs
  up.
\<close>

definition login_without_password :: "(env \<times> request) list" where
  "login_without_password =
     [(served_at 1700000000000, Signup (Some ''alice'') (Some ''a@x.com'') (Some ''pw123'')),
      (served_at 1700000000001, Login (Some ''a@x.com'') None),
      (served_at 1700000000002, Signup (Some ''bob'') (Some ''b@x.com'') (Some ''pw456''))]"

text \<open>The two uploads of the same user for the same topic used below.\<close>

definition two_uploads :: "(env \<times> request) list" where
  "two_uploads =
     [(served_at 1700000000000, Upload (SqlInt 1) (SqlInt 1) (Some ''a.pdf'')),
      (served_at 1700000000001, Upload (SqlInt 1) (SqlInt 1) (Some ''b.pdf''))]"

section \<open>Initialization\<close>

lemma startup_seeded: "startup d = Inr seeded"
  by (cases d) (simp add: startup_def init_script_def topicsToInsert_def seeded_def)

text \<open>
  C7. Every start runs the three drops first, children before parents (assignments,
  topics, users), which leaves no table and no AUTOINCREMENT counter; the three creates
  (parents first: users, topics, assignments) then give three empty tables; the rest of
  the block is \<^verbatim>\<open>DELETE FROM topics\<close> and the insert of the 14 seed rows. Whatever
  the database file held before, the start ends with no user, no assignment and the
  seed catalog.
\<close>

theorem startup_drops_recreates_and_seeds:
  "take 3 init_script =
     [DropTableIfExists Assignments, DropTableIfExists Topics, DropTableIfExists Users]
   \<and> exec_all (take 3 init_script) d =
       Inr \<lparr>users = None, topics = None, assignments = None, seq_users = 0, seq_assignments = 0\<rparr>
   \<and> take 3 (drop 3 init_script) =
       [CreateTableIfNotExists Users, CreateTableIfNotExists Topics,
        CreateTableIfNotExists Assignments]
   \<and> exec_all (take 6 init_script) d =
       Inr \<lparr>users = Some [], topics = Some [], assignments = Some [],
            seq_users = 0, seq_assignments = 0\<rparr>
   \<and> drop 6 init_script = DeleteFromTopics # map InsertIntoTopics topicsToInsert
   \<and> length topicsToInsert = 14
   \<and> startup d =
       Inr \<lparr>users = Some [], topics = Some topicsToInsert, assignments = Some [],
            seq_users = 0, seq_assignments = 0\<rparr>"
proof -
  have order: "take 3 init_script =
      [DropTableIfExists Assignments, DropTableIfExists Topics, DropTableIfExists Users]"
    by (simp add: init_script_def)
  have dropped: "exec_all (take 3 init_script) d =
      Inr \<lparr>users = None, topics = None, assignments = None, seq_users = 0, seq_assignments = 0\<rparr>"
    by (cases d) (simp add: init_script_def)
  have creates: "take 3 (drop 3 init_script) =
      [CreateTableIfNotExists Users, CreateTableIfNotExists Topics,
       CreateTableIfNotExists Assignments]"
    by (simp add: init_script_def)
  have created: "exec_all (take 6 init_script) d =
      Inr \<lparr>users = Some [], topics = Some [], assignments = Some [],
           seq_users = 0, seq_assignments = 0\<rparr>"
    by (cases d) (simp add: init_script_def)
  have seed: "drop 6 init_script = DeleteFromTopics # map InsertIntoTopics topicsToInsert"
    by (simp add: init_script_def)
  have fourteen: "length topicsToInsert = 14"
    by (simp add: topicsToInsert_def)
  have final: "startup d =
      Inr \<lparr>users = Some [], topics = Some topicsToInsert, assignments = Some [],
           seq_users = 0, seq_assignments = 0\<rparr>"
    using startup_seeded [of d] by (simp add: seeded_def)
  from order dropped creates created seed fourteen final show ?thesis by blast
qed

text \<open>A database file with a user, a foreign topic and a submission, restarted.\<close>

theorem startup_drops_recreates_and_seeds_witness:
  "startup \<lparr>users = Some [\<lparr>uid = 7, username = ''alice'', email = ''a@x.com'', password = ''h''\<rparr>],
            topics = Some [\<lparr>tid = 99, moduleName = ''Compilers'', topicName = ''Parsing''\<rparr>],
            assignments = Some [\<lparr>aid = 3, user_id = SqlInt 7, topic_id = SqlInt 99,
                                 file_path = ''uploads/1-x.pdf'', marks = 0, completed = 1\<rparr>],
            seq_users = 7, seq_assignments = 3\<rparr> =
     Inr \<lparr>users = Some [], topics = Some topicsToInsert, assignments = Some [],
          seq_users = 0, seq_assignments = 0\<rparr>"
  using startup_drops_recreates_and_seeds by blast

text \<open>
  C6. Right after the seeding of a start, from any database file, \<^verbatim>\<open>GET /api/modules\<close>
  (when the driver reports no failure) answers 200 with exactly 14 rows, and the module
  names that occur in them are exactly Operating Systems, DBMS and Computer Networks.
\<close>

theorem modules_after_seeding:
  assumes "fault e = None"
  shows "\<exists>d' rows. startup d = Inr d' \<and> modules e d' = (200, TopicRows rows)
           \<and> length rows = 14
           \<and> set (map moduleName rows) = {''Operating Systems'', ''DBMS'', ''Computer Networks''}"
proof -
  have "modules e seeded = (200, TopicRows topicsToInsert)"
    using assms by (simp add: modules_def select_topics_def seeded_def)
  moreover have "length topicsToInsert = 14"
    by (simp add: topicsToInsert_def)
  moreover have "set (map moduleName topicsToInsert) =
      {''Operating Systems'', ''DBMS'', ''Computer Networks''}"
    by (simp add: topicsToInsert_def insert_commute)
  ultimately show ?thesis
    using startup_seeded [of d] by blast
qed

theorem modules_after_seeding_witness:
  "\<exists>rows. modules (served_at 1700000000000) seeded = (200, TopicRows rows)
      \<and> length rows = 14
      \<and> set (map moduleName rows) = {''Operating Systems'', ''DBMS'', ''Computer Networks''}"
proof -
  have "fault (served_at 1700000000000) = None"
    by (simp add: served_at_def)
  from modules_after_seeding [OF this, of seeded] show ?thesis
    by (simp add: startup_seeded)
qed

section \<open>Row ids\<close>

lemma fold_max_ge: "seq \<le> fold max ids (seq::int)"
  by (induction ids arbitrary: seq) (auto intro: order_trans [OF max.cobounded2])

lemma fold_max_mem: "i \<in> set ids \<Longrightarrow> i \<le> fold max ids (seq::int)"
proof (induction ids arbitrary: seq)
  case Nil
  then show ?case by simp
next
  case (Cons a ids)
  show ?case
  proof (cases "i = a")
    case True
    have "a \<le> max a seq" by simp
    also have "\<dots> \<le> fold max ids (max a seq)" by (rule fold_max_ge)
    finally show ?thesis using True by simp
  next
    case False
    with Cons show ?thesis by simp
  qed
qed

lemma next_rowid_fresh: "next_rowid seq ids \<notin> set ids"
proof
  assume "next_rowid seq ids \<in> set ids"
  then have "next_rowid seq ids \<le> fold max ids seq" by (rule fold_max_mem)
  then show False by (simp add: next_rowid_def)
qed

text \<open>
  The new row of a REPLACE without id conflicts with no row: the delete step of the
  statement removes nothing.
\<close>

lemma replace_deletes_nothing:
  "filter (\<lambda>a. aid a \<noteq> next_rowid seq (map aid as)) as = as"
proof -
  have "\<forall>a\<in>set as. aid a \<noteq> next_rowid seq (map aid as)"
    using next_rowid_fresh [of seq "map aid as"] by (metis image_eqI set_map)
  then show ?thesis by (simp add: filter_id_conv)
qed

section \<open>Upload\<close>

lemma replace_into_assignments_ok:
  assumes "fault e = None" and "assignments d = Some as"
  shows "replace_into_assignments e userId topicId filePath d =
           Inr (d\<lparr>assignments :=
                     Some (as @ [\<lparr>aid = next_rowid (seq_assignments d) (map aid as),
                                   user_id = userId, topic_id = topicId,
                                   file_path = filePath, marks = 0, completed = 1\<rparr>]),
                   seq_assignments := next_rowid (seq_assignments d) (map aid as)\<rparr>,
                next_rowid (seq_assignments d) (map aid as))"
  using assms by (simp add: replace_into_assignments_def Let_def replace_deletes_nothing)

lemma replace_into_assignments_err:
  "replace_into_assignments e userId topicId filePath d = Inl err \<longleftrightarrow>
     fault e = Some err \<or> (fault e = None \<and> assignments d = None \<and> err = no_such_table ''assignments'')"
  by (auto simp: replace_into_assignments_def Let_def split: option.splits)

text \<open>Every upload that reaches the store adds a row and keeps all the rows there were.\<close>

lemma upload_appends:
  assumes "fault e = None" and "assignments (store s) = Some as"
  shows "assignments (store (fst (upload e userId topicId (Some name) s))) =
           Some (as @ [\<lparr>aid = next_rowid (seq_assignments (store s)) (map aid as),
                         user_id = userId, topic_id = topicId,
                         file_path = stored_path e name,
                         marks = 0, completed = 1\<rparr>])"
  using assms by (simp add: upload_def Let_def replace_into_assignments_ok)

text \<open>
  C5. An upload request without a file is answered 400 \<^verbatim>\<open>No file uploaded.\<close> and leaves
  the server (database and files) as it was. When the store write fails after multer has
  saved the file, the database is unchanged, the answer is 500 with the error's message,
  and the file is gone when the unlink worked; when the unlink failed the file stays and
  the answer is the same.
\<close>
theorem upload_failure_modes:
  "upload e userId topicId None s = (s, (400, Message ''No file uploaded.''))
   \<and> (replace_into_assignments e userId topicId (stored_path e name) (store s) = Inl err \<longrightarrow>
        upload e userId topicId (Some name) s =
          (s\<lparr>uploads := (if unlink_ok e then uploads s - {stored_path e name}
                          else insert (stored_path e name) (uploads s))\<rparr>,
           (500, Message (message err))))"
proof -
  have no_file: "upload e userId topicId None s = (s, (400, Message ''No file uploaded.''))"
    by (simp add: upload_def)
  have store_fails: "upload e userId topicId (Some name) s =
          (s\<lparr>uploads := (if unlink_ok e then uploads s - {stored_path e name}
                          else insert (stored_path e name) (uploads s))\<rparr>,
           (500, Message (message err)))"
    if "replace_into_assignments e userId topicId (stored_path e name) (store s) = Inl err"
    using that by (simp add: upload_def Let_def)
  show ?thesis
    by (intro conjI impI) (rule no_file, erule store_fails)
qed

text \<open>The disk is full when the row is written, with an unlink that works and one that fails.\<close>

theorem upload_failure_modes_witness:
  "upload (failing_at 1700000000000 True) (SqlInt 1) (SqlInt 1) (Some ''a.pdf'') (started {}) =
     (started {}, (500, Message ''SQLITE_FULL: database or disk is full''))
   \<and> upload (failing_at 1700000000000 False) (SqlInt 1) (SqlInt 1) (Some ''a.pdf'') (started {}) =
     (\<lparr>store = seeded, uploads = {''uploads/1700000000000-a.pdf''}\<rparr>,
      (500, Message ''SQLITE_FULL: database or disk is full''))"
proof -
  have fails: "replace_into_assignments (failing_at 1700000000000 u) (SqlInt 1) (SqlInt 1)
      (stored_path (failing_at 1700000000000 u) ''a.pdf'') (store (started {})) = Inl disk_full" for u
    by (simp add: replace_into_assignments_def failing_at_def)
  have "upload (failing_at 1700000000000 True) (SqlInt 1) (SqlInt 1) (Some ''a.pdf'') (started {}) =
     (started {}, (500, Message ''SQLITE_FULL: database or disk is full''))"
    using upload_failure_modes [where e = "failing_at 1700000000000 True" and s = "started {}"
        and name = "''a.pdf''" and err = disk_full and userId = "SqlInt 1" and topicId = "SqlInt 1"]
      fails [of True]
    by (simp add: failing_at_def disk_full_def started_def)
  moreover
  have "upload (failing_at 1700000000000 False) (SqlInt 1) (SqlInt 1) (Some ''a.pdf'') (started {}) =
     (\<lparr>store = seeded, uploads = {''uploads/1700000000000-a.pdf''}\<rparr>,
      (500, Message ''SQLITE_FULL: database or disk is full''))"
    using upload_failure_modes [where e = "failing_at 1700000000000 False" and s = "started {}"
        and name = "''a.pdf''" and err = disk_full and userId = "SqlInt 1" and topicId = "SqlInt 1"]
      fails [of False]
    by (simp add: failing_at_def disk_full_def started_def stored_path_def destination_def
        filename_def)
  ultimately show ?thesis by blast
qed

text \<open>
  C1. The claim is that two uploads for the same (userId, topicId) leave exactly one
  assignment row for the pair, the second. On the code they leave two: after a start,
  user 1 uploads \<^verbatim>\<open>a.pdf\<close> and then \<^verbatim>\<open>b.pdf\<close> for topic 1, and the table holds the row
  of the first upload (id 1) and the row of the second (id 2).
\<close>

theorem upload_twice_leaves_two_rows:
  "assignments (store (run b two_uploads (started files))) =
     Some [\<lparr>aid = 1, user_id = SqlInt 1, topic_id = SqlInt 1,
             file_path = ''uploads/1700000000000-a.pdf'', marks = 0, completed = 1\<rparr>,
           \<lparr>aid = 2, user_id = SqlInt 1, topic_id = SqlInt 1,
             file_path = ''uploads/1700000000001-b.pdf'', marks = 0, completed = 1\<rparr>]"
  by (simp add: two_uploads_def started_def seeded_def served_at_def upload_def
      stored_path_def destination_def filename_def
      replace_into_assignments_def next_rowid_def Let_def)

section \<open>Progress\<close>

text \<open>
  What holds of the join whatever the rows: a topic for which the user has no assignment
  gives one row with completed 0 and marks 0, so a user without any assignment gets one
  such row per topic; and a user with at most one assignment per topic gets one row per
  topic.
\<close>

lemma left_join_unsubmitted:
  assumes "filter (\<lambda>a. user_id a = userId) as = []"
  shows "left_join userId ts as =
           map (\<lambda>t. \<lparr>row_topicId = tid t, row_module_name = moduleName t,
                       row_topic_name = topicName t, row_completed = 0, row_marks = 0\<rparr>) ts"
proof -
  have "filter (on_cond userId t) as = []" for t
    using assms by (auto simp: filter_empty_conv on_cond_def)
  then show ?thesis
    by (induction ts) (simp_all add: left_join_def select_row_def ifnull_def)
qed

lemma left_join_once:
  assumes "\<forall>t\<in>set ts. length (filter (on_cond userId t) as) \<le> 1"
  shows "map row_topicId (left_join userId ts as) = map tid ts"
  using assms
proof (induction ts)
  case Nil
  then show ?case by (simp add: left_join_def)
next
  case (Cons t ts)
  then have tail: "map row_topicId (left_join userId ts as) = map tid ts"
    by simp
  from Cons.prems have "length (filter (on_cond userId t) as) \<le> 1"
    by simp
  then have "map row_topicId (case filter (on_cond userId t) as of
                        [] \<Rightarrow> [select_row t None]
                      | m # ms \<Rightarrow> map (\<lambda>a. select_row t (Some a)) (m # ms)) = [tid t]"
    by (cases "filter (on_cond userId t) as") (simp_all add: select_row_def)
  with tail show ?case
    by (simp add: left_join_def)
qed

text \<open>
  C2. The claim is that the progress of a user lists every topic of the catalog exactly
  once. After the two uploads of user 1 for topic 1, the left join matches topic 1 with
  both rows: the answer has 15 rows and topic 1 is listed twice. The rest of the claim,
  the zero defaults, holds on the code (\<open>left_join_unsubmitted\<close>).
\<close>

theorem progress_after_two_uploads_repeats_topic:
  "\<exists>rows. progress (served_at 1700000000002) (SqlInt 1)
             (store (run b two_uploads (started files))) = (200, ProgressRows rows)
      \<and> map row_topicId rows = [1, 1, 2, 3, 4, 5, 6, 7, 8, 9, 10, 11, 12, 13, 14]
      \<and> length (filter (\<lambda>r. row_topicId r = 1) rows) = 2"
  by (simp add: two_uploads_def started_def seeded_def served_at_def upload_def
      stored_path_def destination_def filename_def
      replace_into_assignments_def next_rowid_def Let_def progress_def select_progress_def
      left_join_def on_cond_def select_row_def ifnull_def topicsToInsert_def)

section \<open>Signup\<close>


lemma insert_user_ok:
  assumes "fault e = None" and "users d = Some us" and "em \<notin> set (map email us)"
  shows "insert_user e un em h d =
           Inr (d\<lparr>users := Some (us @ [\<lparr>uid = next_rowid (seq_users d) (map uid us),
                                       username = un, email = em, password = h\<rparr>]),
                   seq_users := next_rowid (seq_users d) (map uid us)\<rparr>,
                next_rowid (seq_users d) (map uid us))"
  using assms by (simp add: insert_user_def Let_def)

text \<open>
  C8. Signup answers 400 \<^verbatim>\<open>Missing required fields\<close> and leaves the database as it was
  whenever the username, the email or the password is absent or empty. When the three
  are present and non-empty, the email is that of no stored user, bcrypt hashes the
  password and the driver reports no failure, signup appends the user with the hash,
  answers 200 and returns the id of the new row, an id that no other user has.
\<close>
theorem signup_validation_and_success:
  "(falsy un \<or> falsy em \<or> falsy pw \<longrightarrow>
      signup b e un em pw d = (d, (400, Message ''Missing required fields'')))
   \<and> (un = Some u \<and> u \<noteq> [] \<and> em = Some m \<and> m \<noteq> [] \<and> pw = Some p \<and> p \<noteq> []
        \<and> users d = Some us \<and> m \<notin> set (map email us)
        \<and> fault e = None \<and> hash b p 10 (salt e) = Resolved h \<longrightarrow>
      (\<exists>lastID. signup b e un em pw d =
          (d\<lparr>users := Some (us @ [\<lparr>uid = lastID, username = u, email = m, password = h\<rparr>]),
             seq_users := lastID\<rparr>,
           (200, Registered ''User registered successfully'' lastID))
        \<and> lastID \<notin> set (map uid us)))"
proof -
  have missing: "signup b e un em pw d = (d, (400, Message ''Missing required fields''))"
    if "falsy un \<or> falsy em \<or> falsy pw"
    using that by (simp add: signup_def)
  have registered: "\<exists>lastID. signup b e un em pw d =
          (d\<lparr>users := Some (us @ [\<lparr>uid = lastID, username = u, email = m, password = h\<rparr>]),
             seq_users := lastID\<rparr>,
           (200, Registered ''User registered successfully'' lastID))
        \<and> lastID \<notin> set (map uid us)"
    if "un = Some u \<and> u \<noteq> [] \<and> em = Some m \<and> m \<noteq> [] \<and> pw = Some p \<and> p \<noteq> []
        \<and> users d = Some us \<and> m \<notin> set (map email us)
        \<and> fault e = None \<and> hash b p 10 (salt e) = Resolved h"
  proof -
    have "signup b e un em pw d =
          (d\<lparr>users := Some (us @ [\<lparr>uid = next_rowid (seq_users d) (map uid us),
                                    username = u, email = m, password = h\<rparr>]),
             seq_users := next_rowid (seq_users d) (map uid us)\<rparr>,
           (200, Registered ''User registered successfully'' (next_rowid (seq_users d) (map uid us))))"
      using that by (simp add: signup_def falsy_def insert_user_ok)
    with next_rowid_fresh [of "seq_users d" "map uid us"] show ?thesis by blast
  qed
  show ?thesis
    by (intro conjI impI) (erule missing, erule registered)
qed

theorem signup_validation_and_success_witness:
  "signup sample_bcrypt (served_at 1700000000000) (Some ''alice'') (Some []) (Some ''pw123'') seeded =
     (seeded, (400, Message ''Missing required fields''))
   \<and> signup sample_bcrypt (served_at 1700000000000) (Some ''alice'') None (Some ''pw123'') seeded =
     (seeded, (400, Message ''Missing required fields''))
   \<and> (\<exists>lastID. signup sample_bcrypt (served_at 1700000000000)
          (Some ''alice'') (Some ''a@x.com'') (Some ''pw123'') seeded =
        (seeded\<lparr>users := Some [\<lparr>uid = lastID, username = ''alice'', email = ''a@x.com'',
                                 password = ''salt$pw123''\<rparr>],
                seq_users := lastID\<rparr>,
         (200, Registered ''User registered successfully'' lastID)))"
proof -
  have "signup sample_bcrypt (served_at 1700000000000) (Some ''alice'') (Some []) (Some ''pw123'') seeded =
     (seeded, (400, Message ''Missing required fields''))"
    using signup_validation_and_success [where un = "Some ''alice''" and em = "Some []"
        and pw = "Some ''pw123''" and d = seeded and b = sample_bcrypt
        and e = "served_at 1700000000000"]
    by (simp add: falsy_def)
  moreover
  have "signup sample_bcrypt (served_at 1700000000000) (Some ''alice'') None (Some ''pw123'') seeded =
     (seeded, (400, Message ''Missing required fields''))"
    using signup_validation_and_success [where un = "Some ''alice''" and em = None
        and pw = "Some ''pw123''" and d = seeded and b = sample_bcrypt
        and e = "served_at 1700000000000"]
    by (simp add: falsy_def)
  moreover
  have "\<exists>lastID. signup sample_bcrypt (served_at 1700000000000)
          (Some ''alice'') (Some ''a@x.com'') (Some ''pw123'') seeded =
        (seeded\<lparr>users := Some [\<lparr>uid = lastID, username = ''alice'', email = ''a@x.com'',
                                 password = ''salt$pw123''\<rparr>],
                seq_users := lastID\<rparr>,
         (200, Registered ''User registered successfully'' lastID))"
    using signup_validation_and_success [where un = "Some ''alice''" and u = "''alice''"
        and em = "Some ''a@x.com''" and m = "''a@x.com''" and pw = "Some ''pw123''"
        and p = "''pw123''" and d = seeded and us = "[]" and e = "served_at 1700000000000"
        and b = sample_bcrypt and h = "''salt$pw123''"]
    by (simp add: seeded_def served_at_def sample_bcrypt_def)
  ultimately show ?thesis by blast
qed



lemma users_alice_registered:
  "users alice_registered =
     Some [\<lparr>uid = 1, username = ''alice'', email = ''a@x.com'', password = ''salt$pw123''\<rparr>]"
  by (simp add: alice_registered_def signup_def insert_user_def served_at_def falsy_def
      sample_bcrypt_def seeded_def next_rowid_def)


section \<open>Login\<close>

lemma find_unique_email:
  assumes "distinct (map email us)" and "u \<in> set us"
  shows "find (\<lambda>x. email x = email u) us = Some u"
  using assms
proof (induction us)
  case Nil
  then show ?case by simp
next
  case (Cons a us)
  show ?case
  proof (cases "a = u")
    case True
    then show ?thesis by simp
  next
    case False
    with Cons.prems have "u \<in> set us" and "email a \<noteq> email u"
      by (auto simp: image_iff)
    with Cons show ?thesis by simp
  qed
qed

lemma find_no_email:
  "m \<notin> set (map email us) \<Longrightarrow> find (\<lambda>x. email x = m) us = None"
  by (induction us) auto

text \<open>
  C3. When the lookup itself works, a login with the email of a stored user and a
  password that bcrypt finds wrong, and a login with an email that no stored user has
  (with any password), get the same answer: status 401 and the body
  \<^verbatim>\<open>Invalid credentials\<close>. Emails are unique in the table, so the stored user is the
  one the lookup finds.
\<close>
theorem login_failures_identical:
  assumes "fault e = None" and "users d = Some us" and "distinct (map email us)"
    and "u \<in> set us" and "compare b (Some wrong) (password u) = Resolved False"
    and "m \<notin> set (map email us)"
  shows "login b e (Some (email u)) (Some wrong) d = Some (401, Message ''Invalid credentials'')
       \<and> login b e (Some m) pw d = Some (401, Message ''Invalid credentials'')"
  using assms
  by (simp add: login_def select_user_by_email_def find_unique_email find_no_email
      invalidMessage_def)

theorem login_failures_identical_witness:
  "login sample_bcrypt (served_at 1700000000001) (Some ''a@x.com'') (Some ''wrong'')
     alice_registered = Some (401, Message ''Invalid credentials'')
   \<and> login sample_bcrypt (served_at 1700000000001) (Some ''nobody@x.com'') (Some ''pw123'')
     alice_registered = Some (401, Message ''Invalid credentials'')"
proof -
  let ?alice = "\<lparr>uid = 1, username = ''alice'', email = ''a@x.com'', password = ''salt$pw123''\<rparr>"
  have cmp: "compare sample_bcrypt (Some ''wrong'') (password ?alice) = Resolved False"
    by (simp add: sample_bcrypt_def)
  have quiet: "fault (served_at 1700000000001) = None"
    by (simp add: served_at_def)
  from login_failures_identical [OF quiet users_alice_registered _ _ cmp,
      of "''nobody@x.com''" "Some ''pw123''"]
  show ?thesis by simp
qed

section \<open>What every sequence of requests preserves\<close>

lemma well_formed_seeded: "well_formed seeded"
  by (simp add: well_formed_def seeded_def)

lemma well_formedE:
  assumes "well_formed d"
  obtains us ts as where "users d = Some us" "topics d = Some ts" "assignments d = Some as"
    "distinct (map email us)" "[] \<notin> set (map email us)" "\<forall>a\<in>set as. marks a = 0"
  using assms by (auto simp: well_formed_def list_all_iff split: option.splits)

lemma signup_well_formed:
  assumes "well_formed d"
  shows "well_formed (fst (signup b e un em pw d))"
proof -
  from assms obtain us ts as where d: "users d = Some us" "topics d = Some ts"
    "assignments d = Some as" "distinct (map email us)" "[] \<notin> set (map email us)"
    "\<forall>a\<in>set as. marks a = 0"
    by (rule well_formedE)
  show ?thesis
  proof (cases "falsy un \<or> falsy em \<or> falsy pw")
    case True
    then show ?thesis using assms by (simp add: signup_def)
  next
    case False
    then obtain m where m: "em = Some m" "m \<noteq> []"
      by (auto simp: falsy_def split: option.splits)
    show ?thesis
    proof (cases "hash b (the pw) 10 (salt e)")
      case Rejected
      with False assms show ?thesis by (simp add: signup_def)
    next
      case (Resolved h)
      show ?thesis
      proof (cases "insert_user e (the un) m h d")
        case (Inl err)
        with False Resolved m assms show ?thesis by (simp add: signup_def)
      next
        case (Inr res)
        with d m have "m \<notin> set (map email us)" and "fault e = None"
          by (auto simp: insert_user_def Let_def split: option.splits if_splits)
        with d m have "insert_user e (the un) m h d =
            Inr (d\<lparr>users := Some (us @ [\<lparr>uid = next_rowid (seq_users d) (map uid us),
                                       username = the un, email = m, password = h\<rparr>]),
                   seq_users := next_rowid (seq_users d) (map uid us)\<rparr>,
                next_rowid (seq_users d) (map uid us))"
          by (simp add: insert_user_def Let_def)
        with False Resolved m d \<open>m \<notin> set (map email us)\<close> show ?thesis
          by (simp add: signup_def well_formed_def list_all_iff)
      qed
    qed
  qed
qed

lemma upload_well_formed:
  assumes "well_formed (store s)"
  shows "well_formed (store (fst (upload e userId topicId file s)))"
proof -
  from assms obtain us ts as where d: "users (store s) = Some us" "topics (store s) = Some ts"
    "assignments (store s) = Some as" "distinct (map email us)" "[] \<notin> set (map email us)"
    "\<forall>a\<in>set as. marks a = 0"
    by (rule well_formedE)
  show ?thesis
  proof (cases "file")
    case None
    with assms show ?thesis by (simp add: upload_def)
  next
    case (Some name)
    show ?thesis
    proof (cases "fault e")
      case None
      with Some d show ?thesis
        by (simp add: upload_def Let_def replace_into_assignments_ok well_formed_def list_all_iff)
    next
      case (Some err)
      with \<open>file = Some name\<close> assms show ?thesis
        by (simp add: upload_def Let_def replace_into_assignments_def)
    qed
  qed
qed

lemma handle_well_formed:
  "well_formed (store s) \<Longrightarrow> well_formed (store (fst (handle b e r s)))"
proof (cases r)
  case (Signup un em pw)
  assume "well_formed (store s)"
  then have "well_formed (fst (signup b e un em pw (store s)))"
    by (rule signup_well_formed)
  with Signup show ?thesis by (auto split: prod.splits)
next
  case (Upload userId topicId attached)
  assume "well_formed (store s)"
  then have "well_formed (store (fst (upload e userId topicId attached s)))"
    by (rule upload_well_formed)
  with Upload show ?thesis by (auto split: prod.splits)
qed simp_all

lemma run_well_formed:
  "well_formed (store s) \<Longrightarrow> well_formed (store (run b rs s))"
proof (induction rs arbitrary: s)
  case Nil
  then show ?case by simp
next
  case (Cons a rs)
  obtain e r where a: "a = (e, r)" by (cases a)
  obtain s' answer where h: "handle b e r s = (s', answer)" by (cases "handle b e r s")
  from Cons.prems have "well_formed (store (fst (handle b e r s)))"
    by (rule handle_well_formed)
  with h have s': "well_formed (store s')" by simp
  then have "well_formed (store (run b rs s'))"
    by (rule Cons.IH)
  with a h s' show ?case by (cases answer) simp_all
qed

lemma started_well_formed: "well_formed (store (run b rs (started files)))"
  by (rule run_well_formed) (simp add: started_def well_formed_seeded)

section \<open>Marks\<close>

lemma left_join_marks:
  assumes "\<forall>a\<in>set as. marks a = 0"
  shows "\<forall>r\<in>set (left_join userId ts as). row_marks r = 0"
proof
  fix r assume "r \<in> set (left_join userId ts as)"
  then obtain t where t: "t \<in> set ts"
    and r: "r \<in> set (case filter (on_cond userId t) as of
                        [] \<Rightarrow> [select_row t None]
                      | m # ms \<Rightarrow> map (\<lambda>a. select_row t (Some a)) (m # ms))"
    by (auto simp: left_join_def)
  show "row_marks r = 0"
  proof (cases "filter (on_cond userId t) as")
    case Nil
    with r show ?thesis by (simp add: select_row_def ifnull_def)
  next
    case (Cons m ms)
    with r obtain a where "a \<in> set (filter (on_cond userId t) as)" and "r = select_row t (Some a)"
      by auto
    with assms show ?thesis by (simp add: select_row_def ifnull_def)
  qed
qed

text \<open>
  C9. After a start and any sequence of signup, login, modules, upload and progress
  requests, in any environment, the assignments table exists and every row of it has
  marks 0 (an upload writes a row with the default, also when the pair already has a
  row), and every row of every progress answer reports marks 0.
\<close>
theorem marks_stay_zero:
  "\<exists>as. assignments (store (run b rs (started files))) = Some as
     \<and> (\<forall>a\<in>set as. marks a = 0)
     \<and> (\<forall>e userId rows.
           progress e userId (store (run b rs (started files))) = (200, ProgressRows rows) \<longrightarrow>
           (\<forall>r\<in>set rows. row_marks r = 0))"
proof -
  let ?d = "store (run b rs (started files))"
  have "well_formed ?d" by (rule started_well_formed)
  then obtain us ts as where d: "topics ?d = Some ts" "assignments ?d = Some as"
    "\<forall>a\<in>set as. marks a = 0"
    by (rule well_formedE)
  have "\<forall>r\<in>set rows. row_marks r = 0"
    if "progress e userId ?d = (200, ProgressRows rows)" for e userId rows
  proof -
    from that d have "rows = left_join userId ts as"
      by (auto simp: progress_def select_progress_def split: option.splits)
    with d(3) show ?thesis by (simp add: left_join_marks)
  qed
  with d show ?thesis by blast
qed

text \<open>The two uploads of user 1 for topic 1: two rows, both with marks 0.\<close>

theorem marks_stay_zero_witness:
  "\<exists>as. assignments (store (run sample_bcrypt two_uploads (started {}))) = Some as
     \<and> length as = 2
     \<and> (\<forall>a\<in>set as. marks a = 0)
     \<and> (\<forall>e userId rows.
           progress e userId (store (run sample_bcrypt two_uploads (started {}))) =
             (200, ProgressRows rows) \<longrightarrow>
           (\<forall>r\<in>set rows. row_marks r = 0))"
proof -
  have two: "\<exists>as. assignments (store (run sample_bcrypt two_uploads (started {}))) = Some as
      \<and> length as = 2"
    by (simp add: two_uploads_def started_def seeded_def served_at_def upload_def
      stored_path_def destination_def filename_def
      replace_into_assignments_def next_rowid_def Let_def)
  with marks_stay_zero [of sample_bcrypt two_uploads "{}"] show ?thesis
    by auto
qed

section \<open>Login without presence checks\<close>

text \<open>
  The handler has no presence check: the only statuses it sends are 500, 401 and 200.
  Once the server is started, an absent or empty email matches no user and, when the
  driver reports no failure, is answered 401 \<^verbatim>\<open>Invalid credentials\<close>.
\<close>

lemma login_never_400: "login b e em pw d = Some r \<Longrightarrow> fst r \<in> {500, 401, 200}"
  by (auto simp: login_def split: sum.splits option.splits promise.splits if_splits)

lemma login_no_email:
  assumes "fault e = None" and "falsy em"
  shows "login b e em pw (store (run b rs (started files))) =
           Some (401, Message ''Invalid credentials'')"
proof -
  let ?d = "store (run b rs (started files))"
  have "well_formed ?d" by (rule started_well_formed)
  then obtain us where us: "users ?d = Some us" "[] \<notin> set (map email us)"
    by (rule well_formedE)
  from assms have "em = None \<or> em = Some []"
    by (auto simp: falsy_def split: option.splits)
  then have "select_user_by_email e em ?d = Inr None"
    using assms us by (auto simp: select_user_by_email_def find_no_email)
  then show ?thesis by (simp add: login_def invalidMessage_def)
qed

text \<open>
  C10. The claim is that a login with a missing password is answered 401
  \<^verbatim>\<open>Invalid credentials\<close> like any failed login. On the code it is not answered at
  all when the email is stored: alice is registered; a login with her email and no
  password field finds her row and passes \<^verbatim>\<open>undefined\<close> to \<^verbatim>\<open>bcrypt.compare\<close>,
  which rejects; the callback awaits it outside any \<^verbatim>\<open>try\<close>, no answer is sent and
  the process exits, so the signup of bob that follows is never served.
\<close>

theorem login_missing_password_no_response:
  "select_user_by_email (served_at 1700000000001) (Some ''a@x.com'') alice_registered =
     Inr (Some \<lparr>uid = 1, username = ''alice'', email = ''a@x.com'', password = ''salt$pw123''\<rparr>)
   \<and> login sample_bcrypt (served_at 1700000000001) (Some ''a@x.com'') None alice_registered = None
   \<and> login sample_bcrypt (served_at 1700000000001) (Some ''a@x.com'') None alice_registered \<noteq>
       Some (401, Message ''Invalid credentials'')
   \<and> users (store (run sample_bcrypt login_without_password (started files))) =
       Some [\<lparr>uid = 1, username = ''alice'', email = ''a@x.com'', password = ''salt$pw123''\<rparr>]"
proof -
  have found: "select_user_by_email (served_at 1700000000001) (Some ''a@x.com'') alice_registered =
     Inr (Some \<lparr>uid = 1, username = ''alice'', email = ''a@x.com'', password = ''salt$pw123''\<rparr>)"
    by (simp add: select_user_by_email_def users_alice_registered served_at_def)
  have silent: "login sample_bcrypt (served_at 1700000000001) (Some ''a@x.com'') None
      alice_registered = None"
    by (simp add: login_def found sample_bcrypt_def)
  have first: "signup sample_bcrypt (served_at 1700000000000)
      (Some ''alice'') (Some ''a@x.com'') (Some ''pw123'') seeded =
      (alice_registered, (200, Registered ''User registered successfully'' 1))"
    by (simp add: alice_registered_def signup_def insert_user_def served_at_def falsy_def
        sample_bcrypt_def seeded_def next_rowid_def)
  have "run sample_bcrypt login_without_password (started files) =
      \<lparr>store = alice_registered, uploads = files\<rparr>"
    by (simp add: login_without_password_def started_def first silent)
  then have stopped: "users (store (run sample_bcrypt login_without_password (started files))) =
       Some [\<lparr>uid = 1, username = ''alice'', email = ''a@x.com'', password = ''salt$pw123''\<rparr>]"
    by (simp add: users_alice_registered)
  from found silent stopped show ?thesis by simp
qed

end
